theory Spec2Isabelle
  imports Main
begin

section \<open>The Go runtime as far as the analyzers use it\<close>

text \<open>
  A Go function of this package returns a value together with an error, may panic
  (an index out of range), and \<open>lock\<close> may block for ever on the in-process mutex.
  \<open>Returned v None\<close> is \<open>return v, nil\<close>; \<open>Returned v (Some e)\<close> is
  \<open>return v, err\<close>.
\<close>

datatype error =
    PathError string
  | ConvertSizeError string
  | LockInitError
  | LockAcquireError
  | LockTooManyTries
  | UnlockInitError
  | UnlockReleaseError
  | LoadImageError error
  | NonZeroExit int string
  | ExternalError string

datatype panic =
    IndexOutOfRange nat nat
  | UnlockOfUnlockedMutex

datatype 'a go_result =
    Blocked
  | Panicked panic
  | Returned 'a "error option"

subsection \<open>strings.Split with a one-byte separator\<close>

text \<open>
  \<open>strings.Split(s, sep)\<close> for a separator of one byte: the pieces between the
  separators, in order; a string without the separator (the empty string included)
  gives one piece.
\<close>

fun strings_Split :: "char \<Rightarrow> string \<Rightarrow> string list" where
  "strings_Split c [] = [[]]"
| "strings_Split c (x # xs) =
     (if x = c then [] # strings_Split c xs
      else (case strings_Split c xs of
              [] \<Rightarrow> [[x]]
            | w # ws \<Rightarrow> (x # w) # ws))"

subsection \<open>strconv.ParseInt(s, 10, 64)\<close>

text \<open>
  An optional sign, then one or more decimal digits; the value has to fit an int64.
  \<open>None\<close> is any error of ParseInt (syntax or range).
\<close>

definition is_digit :: "char \<Rightarrow> bool" where
  "is_digit c = (c \<in> set ''0123456789'')"

definition digit_val :: "char \<Rightarrow> int" where
  "digit_val c = of_char c - 48"

definition digits_val :: "string \<Rightarrow> int" where
  "digits_val ds = foldl (\<lambda>acc d. acc * 10 + digit_val d) 0 ds"

definition strip_sign :: "string \<Rightarrow> bool \<times> string" where
  "strip_sign s =
     (case s of
        [] \<Rightarrow> (False, [])
      | c # r \<Rightarrow>
          if c = CHR ''+'' then (False, r)
          else if c = CHR ''-'' then (True, r)
          else (False, s))"

definition strconv_ParseInt :: "string \<Rightarrow> int option" where
  "strconv_ParseInt s =
     (let (neg, ds) = strip_sign s in
      if ds = [] \<or> \<not> list_all is_digit ds then None
      else
        (let un = digits_val ds in
         if neg then (if un > 2 ^ 63 then None else Some (- un))
         else (if un \<ge> 2 ^ 63 then None else Some un)))"

subsection \<open>path/filepath\<close>

text \<open>
  \<open>filepath.Clean\<close> on a Unix path: empty and \<open>.\<close> elements go, an inner \<open>..\<close>
  removes the element before it, a \<open>..\<close> at the start of a rooted path goes, and the
  empty result is \<open>.\<close>. \<open>filepath.Join\<close> drops leading empty elements, joins the
  rest with a slash and cleans the result.
\<close>

fun join_with :: "char \<Rightarrow> string list \<Rightarrow> string" where
  "join_with c [] = []"
| "join_with c [e] = e"
| "join_with c (e # es) = e @ c # join_with c es"

definition path_elems :: "string \<Rightarrow> string list" where
  "path_elems p = filter (\<lambda>e. e \<noteq> [] \<and> e \<noteq> ''.'') (strings_Split CHR ''/'' p)"

fun clean_step :: "bool \<Rightarrow> string list \<Rightarrow> string \<Rightarrow> string list" where
  "clean_step rooted stack e =
     (if e = ''..'' then
        (case stack of
           [] \<Rightarrow> if rooted then [] else [e]
         | t # ts \<Rightarrow> if t = ''..'' then e # t # ts else ts)
      else e # stack)"

definition filepath_Clean :: "string \<Rightarrow> string" where
  "filepath_Clean p =
     (case p of
        [] \<Rightarrow> ''.''
      | c # _ \<Rightarrow>
          (let rooted = (c = CHR ''/'');
               body = join_with CHR ''/'' (rev (foldl (clean_step rooted) [] (path_elems p)))
           in if rooted then CHR ''/'' # body
              else if body = [] then ''.''
              else body))"

definition filepath_Join :: "string \<Rightarrow> string \<Rightarrow> string" where
  "filepath_Join a b =
     (if a \<noteq> [] then filepath_Clean (a @ CHR ''/'' # b)
      else if b \<noteq> [] then filepath_Clean b
      else [])"

subsection \<open>The file system the analyzers read\<close>

text \<open>
  What the kernel answers for a path: nothing there, a directory, a regular file
  (given as the lines \<open>bufio.Scanner\<close> yields for it), or an entry that \<open>os.Stat\<close>
  sees and \<open>os.Open\<close> is refused. \<open>os.Open\<close> of a directory succeeds and the scanner
  yields no line for it.
\<close>

datatype fsnode = Dir | File "string list" | NoAccess

type_synonym filesystem = "string \<Rightarrow> fsnode option"

definition os_Stat :: "filesystem \<Rightarrow> string \<Rightarrow> error option" where
  "os_Stat fs p = (case fs p of None \<Rightarrow> Some (PathError p) | Some _ \<Rightarrow> None)"

definition os_Open :: "filesystem \<Rightarrow> string \<Rightarrow> error + string list" where
  "os_Open fs p =
     (case fs p of
        None \<Rightarrow> Inl (PathError p)
      | Some NoAccess \<Rightarrow> Inl (PathError p)
      | Some Dir \<Rightarrow> Inr []
      | Some (File ls) \<Rightarrow> Inr ls)"

section \<open>The data model\<close>

text \<open>
  \<open>util.PackageInfo\<close> and \<open>pkgutil.Image\<close> are declared outside the files at hand;
  the fields are the ones the analyzers use. \<open>Size\<close> is an int64: the analyzers store
  what ParseInt returns (or -1) and never compute with it.
\<close>

record PackageInfo =
  Version :: string
  Size :: int

definition PackageInfo_zero :: PackageInfo where
  "PackageInfo_zero = \<lparr>Version = [], Size = 0\<rparr>"

type_synonym PackageMap = "string \<Rightarrow> PackageInfo option"

record Layer =
  LayerFSPath :: string

record Image =
  Source :: string
  FSPath :: string
  Layers :: "Layer list"

section \<open>The apk analyzer reading etc/apk/world (differs/apk\_diff.go)\<close>

definition apkWorldFile :: string where
  "apkWorldFile = ''etc/apk/world''"

text \<open>
  \<open>parseApkInfo\<close> stores into the map it is given and returns the package name; the
  model returns both. \<open>line[1]\<close> of a one-element split is the panic.
\<close>

definition parseApkInfo ::
  "string \<Rightarrow> string \<Rightarrow> PackageMap \<Rightarrow> panic + (string \<times> PackageMap)" where
  "parseApkInfo text currPackage packages =
     (case strings_Split CHR ''='' text of
        name # ver # _ \<Rightarrow>
          (let currPackageInfo =
                 (case packages name of None \<Rightarrow> PackageInfo_zero | Some i \<Rightarrow> i)
           in Inr (name, packages(name \<mapsto> currPackageInfo\<lparr>Version := ver\<rparr>)))
      | line \<Rightarrow> Inl (IndexOutOfRange 1 (length line)))"

fun scan_world :: "string list \<Rightarrow> string \<Rightarrow> PackageMap \<Rightarrow> panic + (string \<times> PackageMap)" where
  "scan_world [] currPackage packages = Inr (currPackage, packages)"
| "scan_world (text # rest) currPackage packages =
     (case parseApkInfo text currPackage packages of
        Inl p \<Rightarrow> Inl p
      | Inr (cur, pk) \<Rightarrow> scan_world rest cur pk)"

definition readWorldFile :: "filesystem \<Rightarrow> string \<Rightarrow> PackageMap go_result" where
  "readWorldFile fs root =
     (case os_Stat fs root of
        Some err \<Rightarrow> Returned Map.empty (Some err)
      | None \<Rightarrow>
          (let worldFile = filepath_Join root apkWorldFile in
           case os_Stat fs worldFile of
             Some err \<Rightarrow> Returned Map.empty None
           | None \<Rightarrow>
               (case os_Open fs worldFile of
                  Inl err \<Rightarrow> Returned Map.empty (Some err)
                | Inr lines \<Rightarrow>
                    (case scan_world lines [] Map.empty of
                       Inl p \<Rightarrow> Panicked p
                     | Inr (cur, pk) \<Rightarrow> Returned pk None))))"

definition ApkAnalyzer_getPackages :: "filesystem \<Rightarrow> Image \<Rightarrow> PackageMap go_result" where
  "ApkAnalyzer_getPackages fs img = readWorldFile fs (FSPath img)"

section \<open>The apk analyzer reading lib/apk/db/installed (the second apk\_diff.go)\<close>

text \<open>
  The sources hold a second definition of the same file, with the same function names,
  that reads the installed database. Its functions carry the suffix \<open>_installed\<close>
  here. Its \<open>parseApkInfo\<close> cannot panic: it indexes the split only when the split
  has two elements.
\<close>

definition apkInstalledPackagesFile :: string where
  "apkInstalledPackagesFile = ''lib/apk/db/installed''"

definition parseApkInfo_installed ::
  "string \<Rightarrow> string \<Rightarrow> PackageMap \<Rightarrow> string \<times> PackageMap" where
  "parseApkInfo_installed text currPackage packages =
     (case strings_Split CHR '':'' text of
        [key, val] \<Rightarrow>
          if key = ''P'' then (val, packages)
          else if key = ''V'' then
            (let currPackageInfo =
                   (case packages currPackage of None \<Rightarrow> PackageInfo_zero | Some i \<Rightarrow> i)
             in (currPackage, packages(currPackage \<mapsto> currPackageInfo\<lparr>Version := val\<rparr>)))
          else if key = ''I'' then
            (let currPackageInfo =
                   (case packages currPackage of None \<Rightarrow> PackageInfo_zero | Some i \<Rightarrow> i);
                 sz = (case strconv_ParseInt val of None \<Rightarrow> - 1 | Some n \<Rightarrow> n)
             in (currPackage, packages(currPackage \<mapsto> currPackageInfo\<lparr>Size := sz\<rparr>)))
          else (currPackage, packages)
      | _ \<Rightarrow> (currPackage, packages))"

fun scan_installed :: "string list \<Rightarrow> string \<Rightarrow> PackageMap \<Rightarrow> string \<times> PackageMap" where
  "scan_installed [] currPackage packages = (currPackage, packages)"
| "scan_installed (text # rest) currPackage packages =
     (case parseApkInfo_installed text currPackage packages of
        (cur, pk) \<Rightarrow> scan_installed rest cur pk)"

definition readWorldFile_installed :: "filesystem \<Rightarrow> string \<Rightarrow> PackageMap go_result" where
  "readWorldFile_installed fs root =
     (case os_Stat fs root of
        Some err \<Rightarrow> Returned Map.empty (Some err)
      | None \<Rightarrow>
          (let installedPackagesFile = filepath_Join root apkInstalledPackagesFile in
           case os_Stat fs installedPackagesFile of
             Some err \<Rightarrow> Returned Map.empty None
           | None \<Rightarrow>
               (case os_Open fs installedPackagesFile of
                  Inl err \<Rightarrow> Returned Map.empty (Some err)
                | Inr lines \<Rightarrow> Returned (snd (scan_installed lines [] Map.empty)) None)))"


section \<open>The apk layer analyzer (both definitions)\<close>

text \<open>
  Modelled from the spec: \<open>readStatusFile\<close>, the reader of the dpkg database that the
  apk layer analyzer calls for every layer; it belongs to the apt analyzer, whose file
  is not among the sources. By the spec's table of package databases it reads
  \<open>var/lib/dpkg/status\<close> under the root it is given, and by the spec's rule for a
  missing database an absent file is an empty map and no error. The parser of the
  file's lines is a parameter.
\<close>

definition dpkgStatusFile :: string where
  "dpkgStatusFile = ''var/lib/dpkg/status''"

definition readStatusFile ::
  "(string list \<Rightarrow> PackageMap) \<Rightarrow> filesystem \<Rightarrow> string \<Rightarrow> PackageMap go_result" where
  "readStatusFile parseStatus fs root =
     (case os_Stat fs root of
        Some err \<Rightarrow> Returned Map.empty (Some err)
      | None \<Rightarrow>
          (let statusFile = filepath_Join root dpkgStatusFile in
           case os_Stat fs statusFile of
             Some err \<Rightarrow> Returned Map.empty None
           | None \<Rightarrow>
               (case os_Open fs statusFile of
                  Inl err \<Rightarrow> Returned Map.empty (Some err)
                | Inr lines \<Rightarrow> Returned (parseStatus lines) None)))"

text \<open>
  The loop over \<open>image.Layers\<close>: the first layer whose reader returns an error ends
  it, with the maps collected so far and that error.
\<close>

fun layers_loop ::
  "(string \<Rightarrow> PackageMap go_result) \<Rightarrow> Layer list \<Rightarrow> PackageMap list
     \<Rightarrow> PackageMap list go_result" where
  "layers_loop reader [] packages = Returned packages None"
| "layers_loop reader (layer # rest) packages =
     (case reader (LayerFSPath layer) of
        Blocked \<Rightarrow> Blocked
      | Panicked p \<Rightarrow> Panicked p
      | Returned layerPackages (Some err) \<Rightarrow> Returned packages (Some err)
      | Returned layerPackages None \<Rightarrow> layers_loop reader rest (packages @ [layerPackages]))"

definition ApkLayerAnalyzer_getPackages ::
  "(string list \<Rightarrow> PackageMap) \<Rightarrow> filesystem \<Rightarrow> Image \<Rightarrow> PackageMap list go_result" where
  "ApkLayerAnalyzer_getPackages parseStatus fs img =
     (case os_Stat fs (FSPath img) of
        Some err \<Rightarrow> Returned [] (Some err)
      | None \<Rightarrow>
          (case os_Stat fs (filepath_Join (FSPath img) apkWorldFile) of
             Some err \<Rightarrow> Returned [] None
           | None \<Rightarrow> layers_loop (readStatusFile parseStatus fs) (Layers img) []))"

definition ApkLayerAnalyzer_getPackages_installed ::
  "(string list \<Rightarrow> PackageMap) \<Rightarrow> filesystem \<Rightarrow> Image \<Rightarrow> PackageMap list go_result" where
  "ApkLayerAnalyzer_getPackages_installed parseStatus fs img =
     (case os_Stat fs (FSPath img) of
        Some err \<Rightarrow> Returned [] (Some err)
      | None \<Rightarrow>
          (case os_Stat fs (filepath_Join (FSPath img) apkInstalledPackagesFile) of
             Some err \<Rightarrow> Returned [] None
           | None \<Rightarrow> layers_loop (readStatusFile parseStatus fs) (Layers img) []))"

section \<open>The package diff behind ApkAnalyzer.Diff\<close>

text \<open>
  Modelled from the spec: \<open>singleVersionDiff\<close> and the PackageDiffEngine it calls,
  whose files are not among the sources. By the spec the backbone calls \<open>getPackages\<close>
  on both images and hands the two maps to the engine, and the engine records a name
  of A that B lacks in \<open>Image1Only\<close> with A's info, a name of B that A lacks in
  \<open>Image2Only\<close> with B's info, and a name of both whose infos differ in \<open>Modified\<close>
  with both infos. Each bucket is keyed by the package name; the order in which a
  bucket is printed is not modelled.
\<close>

record PackageDiff =
  Image1Only :: PackageMap
  Image2Only :: PackageMap
  Modified :: "string \<Rightarrow> (PackageInfo \<times> PackageInfo) option"

definition PackageDiffEngine :: "PackageMap \<Rightarrow> PackageMap \<Rightarrow> PackageDiff" where
  "PackageDiffEngine A B =
     \<lparr>Image1Only = (\<lambda>n. case B n of None \<Rightarrow> A n | Some _ \<Rightarrow> None),
      Image2Only = (\<lambda>n. case A n of None \<Rightarrow> B n | Some _ \<Rightarrow> None),
      Modified =
        (\<lambda>n. case A n of
                None \<Rightarrow> None
              | Some a \<Rightarrow>
                  (case B n of
                     None \<Rightarrow> None
                   | Some b \<Rightarrow> if a = b then None else Some (a, b)))\<rparr>"

definition PackageDiff_empty :: PackageDiff where
  "PackageDiff_empty = \<lparr>Image1Only = Map.empty, Image2Only = Map.empty, Modified = Map.empty\<rparr>"

definition singleVersionDiff ::
  "(Image \<Rightarrow> PackageMap go_result) \<Rightarrow> Image \<Rightarrow> Image \<Rightarrow> PackageDiff go_result" where
  "singleVersionDiff getPackages image1 image2 =
     (case getPackages image1 of
        Blocked \<Rightarrow> Blocked
      | Panicked p \<Rightarrow> Panicked p
      | Returned pack1 (Some err) \<Rightarrow> Returned PackageDiff_empty (Some err)
      | Returned pack1 None \<Rightarrow>
          (case getPackages image2 of
             Blocked \<Rightarrow> Blocked
           | Panicked p \<Rightarrow> Panicked p
           | Returned pack2 (Some err) \<Rightarrow> Returned PackageDiff_empty (Some err)
           | Returned pack2 None \<Rightarrow> Returned (PackageDiffEngine pack1 pack2) None))"

definition ApkAnalyzer_Diff :: "filesystem \<Rightarrow> Image \<Rightarrow> Image \<Rightarrow> PackageDiff go_result" where
  "ApkAnalyzer_Diff fs image1 image2 = singleVersionDiff (ApkAnalyzer_getPackages fs) image1 image2"

section \<open>The rpm analyzer (differs/rpm\_diff.go)\<close>

subsection \<open>parsePackageData\<close>

definition tab :: char where
  "tab = CHR 0x09"

definition newline :: char where
  "newline = CHR 0x0A"

text \<open>
  The loop of \<open>parsePackageData\<close> over the lines of the query's output, with the map
  built so far. A line that does not split into three fields is skipped; a size that
  ParseInt refuses ends the loop with the map built so far and an error.
\<close>

fun parsePackageData_loop :: "string list \<Rightarrow> PackageMap \<Rightarrow> PackageMap go_result" where
  "parsePackageData_loop [] packages = Returned packages None"
| "parsePackageData_loop (output # rest) packages =
     (case strings_Split tab output of
        [name, ver, sz] \<Rightarrow>
          (case strconv_ParseInt sz of
             None \<Rightarrow> Returned packages (Some (ConvertSizeError sz))
           | Some n \<Rightarrow>
               parsePackageData_loop rest (packages(name \<mapsto> \<lparr>Version = ver, Size = n\<rparr>)))
      | _ \<Rightarrow> parsePackageData_loop rest packages)"

definition parsePackageData :: "string list \<Rightarrow> PackageMap go_result" where
  "parsePackageData rpmOutput = parsePackageData_loop rpmOutput Map.empty"

subsection \<open>The DaemonGate: lock and unlock\<close>

text \<open>
  The gate is the in-process mutex \<open>daemonMutex\<close> and the lock file. The lock file
  library, the docker client and the host's rpm binary are outside the package: what
  they answer is the environment. \<open>TryLock env i\<close> is the answer to attempt \<open>i\<close> of
  one call of \<open>lock\<close>: success, a \<open>lockfile.TemporaryError\<close> (the file is locked by
  another process or has vanished, so this process does not hold it), or any other
  error. \<open>loadImageToDaemon env = None\<close> is a tag search that finds every random tag
  in use and never ends.
\<close>

record Gate =
  mutex_held :: bool
  file_lock_held :: bool

datatype TryLock_result = TryLock_ok | TryLock_temporary | TryLock_fatal

datatype event =
    EvMutexLock
  | EvMutexUnlock
  | EvTryLock TryLock_result
  | EvSleep nat
  | EvFileUnlock
  | EvLoadImage
  | EvCreateContainer
  | EvStartContainer
  | EvWaitContainer
  | EvLogs
  | EvRemoveContainer
  | EvRemoveImage

record daemon_env =
  NewClientFromEnv_err :: "error option"
  getLockfile_err :: "error option"
  TryLock :: "nat \<Rightarrow> TryLock_result"
  Unlock_err :: "error option"
  loadImageToDaemon :: "(error + string) option"
  CreateContainer :: "error + string"
  StartContainer_err :: "error option"
  WaitContainer :: "error + int"
  Logs :: "error + (string \<times> string)"
  rpmEnvCheck :: "string \<Rightarrow> error + string"
  exec_rpm :: "string \<Rightarrow> string \<Rightarrow> error + string"

text \<open>
  The attempt loop of \<open>lock\<close>, from attempt \<open>i\<close> on; \<open>err\<close> says whether the variable
  \<open>err\<close> holds an error. The result is what \<open>lock\<close> returns, the gate after it and
  the events in order. The loop has no exit on success: every iteration calls TryLock
  again and overwrites \<open>err\<close>.
\<close>

function lock_loop ::
  "daemon_env \<Rightarrow> nat \<Rightarrow> bool \<Rightarrow> Gate \<Rightarrow> unit go_result \<times> Gate \<times> event list" where
  "lock_loop env i err g =
     (if i < 10 then
        (case TryLock env i of
           TryLock_ok \<Rightarrow>
             (case lock_loop env (Suc i) False (g\<lparr>file_lock_held := True\<rparr>) of
                (r, g', tr) \<Rightarrow> (r, g', EvTryLock TryLock_ok # tr))
         | TryLock_temporary \<Rightarrow>
             (case lock_loop env (Suc i) True (g\<lparr>file_lock_held := False\<rparr>) of
                (r, g', tr) \<Rightarrow> (r, g', EvTryLock TryLock_temporary # EvSleep 2 # tr))
         | TryLock_fatal \<Rightarrow>
             (Returned () (Some LockAcquireError), g\<lparr>mutex_held := False\<rparr>,
              [EvTryLock TryLock_fatal, EvMutexUnlock]))
      else if err then
        (Returned () (Some LockTooManyTries), g\<lparr>mutex_held := False\<rparr>, [EvMutexUnlock])
      else (Returned () None, g, []))"
  by pat_completeness auto
termination
  by (relation "measure (\<lambda>(env, i, err, g). 10 - i)") auto

definition lock :: "daemon_env \<Rightarrow> Gate \<Rightarrow> unit go_result \<times> Gate \<times> event list" where
  "lock env g =
     (if mutex_held g then (Blocked, g, [])
      else
        (case getLockfile_err env of
           Some e \<Rightarrow>
             (Returned () (Some LockInitError), g\<lparr>mutex_held := False\<rparr>,
              [EvMutexLock, EvMutexUnlock])
         | None \<Rightarrow>
             (case lock_loop env 0 False (g\<lparr>mutex_held := True\<rparr>) of
                (r, g', tr) \<Rightarrow> (r, g', EvMutexLock # tr))))"

definition unlock :: "daemon_env \<Rightarrow> Gate \<Rightarrow> unit go_result \<times> Gate \<times> event list" where
  "unlock env g =
     (case getLockfile_err env of
        Some e \<Rightarrow> (Returned () (Some UnlockInitError), g, [])
      | None \<Rightarrow>
          (case Unlock_err env of
             Some e \<Rightarrow> (Returned () (Some UnlockReleaseError), g, [])
           | None \<Rightarrow>
               if mutex_held g then
                 (Returned () None, g\<lparr>file_lock_held := False, mutex_held := False\<rparr>,
                  [EvFileUnlock, EvMutexUnlock])
               else
                 (Panicked UnlockOfUnlockedMutex, g\<lparr>file_lock_held := False\<rparr>,
                  [EvFileUnlock])))"

subsection \<open>rpmDataFromContainer\<close>

text \<open>
  The part of \<open>rpmDataFromContainer\<close> after \<open>unlock()\<close>: the container's life and
  the parse of its output, with the deferred removals at the end of every path.
\<close>

definition run_query_container :: "daemon_env \<Rightarrow> PackageMap go_result \<times> event list" where
  "run_query_container env =
     (case CreateContainer env of
        Inl err \<Rightarrow> (Returned Map.empty (Some err), [EvCreateContainer, EvRemoveImage])
      | Inr container \<Rightarrow>
          (case StartContainer_err env of
             Some err \<Rightarrow>
               (Returned Map.empty (Some err),
                [EvCreateContainer, EvStartContainer, EvRemoveContainer, EvRemoveImage])
           | None \<Rightarrow>
               (case WaitContainer env of
                  Inl err \<Rightarrow>
                    (Returned Map.empty (Some err),
                     [EvCreateContainer, EvStartContainer, EvWaitContainer,
                      EvRemoveContainer, EvRemoveImage])
                | Inr exitCode \<Rightarrow>
                    (case Logs env of
                       Inl err \<Rightarrow>
                         (Returned Map.empty (Some err),
                          [EvCreateContainer, EvStartContainer, EvWaitContainer, EvLogs,
                           EvRemoveContainer, EvRemoveImage])
                     | Inr (outBuf, errBuf) \<Rightarrow>
                         (if exitCode \<noteq> 0
                          then Returned Map.empty (Some (NonZeroExit exitCode errBuf))
                          else parsePackageData (strings_Split newline outBuf),
                          [EvCreateContainer, EvStartContainer, EvWaitContainer, EvLogs,
                           EvRemoveContainer, EvRemoveImage])))))"

definition rpmDataFromContainer ::
  "daemon_env \<Rightarrow> Gate \<Rightarrow> PackageMap go_result \<times> Gate \<times> event list" where
  "rpmDataFromContainer env g =
     (case NewClientFromEnv_err env of
        Some err \<Rightarrow> (Returned Map.empty (Some err), g, [])
      | None \<Rightarrow>
          (case lock env g of
             (Blocked, g1, tr1) \<Rightarrow> (Blocked, g1, tr1)
           | (Panicked p, g1, tr1) \<Rightarrow> (Panicked p, g1, tr1)
           | (Returned u (Some err), g1, tr1) \<Rightarrow> (Returned Map.empty (Some err), g1, tr1)
           | (Returned u None, g1, tr1) \<Rightarrow>
               (case loadImageToDaemon env of
                  None \<Rightarrow> (Blocked, g1, tr1 @ [EvLoadImage])
                | Some (Inl err) \<Rightarrow>
                    (Returned Map.empty (Some (LoadImageError err)), g1, tr1 @ [EvLoadImage])
                | Some (Inr imageName) \<Rightarrow>
                    (case unlock env g1 of
                       (Panicked p, g2, tr2) \<Rightarrow> (Panicked p, g2, tr1 @ EvLoadImage # tr2)
                     | (ur, g2, tr2) \<Rightarrow>
                         (case run_query_container env of
                            (r, tr3) \<Rightarrow> (r, g2, tr1 @ EvLoadImage # tr2 @ tr3))))))"

subsection \<open>RPMAnalyzer.getPackages\<close>

text \<open>
  \<open>rpmEnvCheck\<close> runs the host's rpm binary and reads the image's macros file; what it
  returns (the database path, or an error) is the environment's, and so is the output
  of the host's rpm query in \<open>rpmDataFromFS\<close>.
\<close>

definition rpmDataFromFS ::
  "daemon_env \<Rightarrow> filesystem \<Rightarrow> string \<Rightarrow> string \<Rightarrow> PackageMap go_result" where
  "rpmDataFromFS env fs fsPath dbPath =
     (case os_Stat fs (filepath_Join fsPath dbPath) of
        Some err \<Rightarrow> Returned Map.empty None
      | None \<Rightarrow>
          (case exec_rpm env fsPath dbPath of
             Inl err \<Rightarrow> Returned Map.empty (Some err)
           | Inr out \<Rightarrow> parsePackageData (strings_Split newline out)))"

definition rpmDataFromImageFS ::
  "daemon_env \<Rightarrow> filesystem \<Rightarrow> Image \<Rightarrow> PackageMap go_result" where
  "rpmDataFromImageFS env fs img =
     (case rpmEnvCheck env (FSPath img) of
        Inl err \<Rightarrow> Returned Map.empty (Some err)
      | Inr dbPath \<Rightarrow> rpmDataFromFS env fs (FSPath img) dbPath)"

definition RPMAnalyzer_getPackages ::
  "daemon_env \<Rightarrow> filesystem \<Rightarrow> Gate \<Rightarrow> Image
     \<Rightarrow> PackageMap go_result \<times> Gate \<times> event list" where
  "RPMAnalyzer_getPackages env fs g img =
     (let path = FSPath img in
      case os_Stat fs path of
        Some err \<Rightarrow> (Returned Map.empty (Some err), g, [])
      | None \<Rightarrow>
          if os_Stat fs (filepath_Join path ''bin/rpm'') \<noteq> None
             \<and> os_Stat fs (filepath_Join path ''usr/bin/rpm'') \<noteq> None
          then (Returned Map.empty None, g, [])
          else
            (case rpmDataFromImageFS env fs img of
               Returned packages None \<Rightarrow> (Returned packages None, g, [])
             | Returned packages (Some err) \<Rightarrow> rpmDataFromContainer env g
             | Blocked \<Rightarrow> (Blocked, g, [])
             | Panicked p \<Rightarrow> (Panicked p, g, [])))"

section \<open>The reader the spec asks for\<close>


section \<open>Example images\<close>

text \<open>An unpacked image whose world file names a package without a version.\<close>

definition fs_bare_name :: filesystem where
  "fs_bare_name =
     [''/img'' \<mapsto> Dir,
      ''/img/etc/apk/world'' \<mapsto> File [''musl=1.2.5-r0'', ''curl'']]"

text \<open>An image with both apk files, and one with the world file only.\<close>

definition installed_musl :: "string list" where
  "installed_musl =
     [''C:Q1abc='', ''P:musl'', ''V:1.2.5-r0'', ''A:x86_64'', ''S:400000'', ''I:634880'',
      ''T:the musl c library'', '''']"



definition img_flat :: Image where
  "img_flat = \<lparr>Source = ''example'', FSPath = ''/img'', Layers = []\<rparr>"

text \<open>An unpacked image with no package database and no rpm binary.\<close>

definition fs_no_db :: filesystem where
  "fs_no_db = [''/img'' \<mapsto> Dir]"

text \<open>The two images of the spec's apk world scenario.\<close>

definition fs_scenario :: filesystem where
  "fs_scenario =
     [''/imgA'' \<mapsto> Dir,
      ''/imgA/etc/apk/world'' \<mapsto> File [''musl=1.2.5-r0'', ''busybox=1.36.1-r29''],
      ''/imgB'' \<mapsto> Dir,
      ''/imgB/etc/apk/world'' \<mapsto> File [''musl=1.2.5-r1'', ''curl=8.8.0-r0'']]"

definition imgA :: Image where
  "imgA = \<lparr>Source = ''A'', FSPath = ''/imgA'', Layers = []\<rparr>"

definition imgB :: Image where
  "imgB = \<lparr>Source = ''B'', FSPath = ''/imgB'', Layers = []\<rparr>"

text \<open>
  An image with one materialized layer; the flattened root and the layer hold both apk
  files and no dpkg database.
\<close>

definition fs_layered :: filesystem where
  "fs_layered =
     [''/img'' \<mapsto> Dir,
      ''/img/etc/apk/world'' \<mapsto> File [''musl=1.2.5-r0''],
      ''/img/lib/apk/db/installed'' \<mapsto> File installed_musl,
      ''/layer0'' \<mapsto> Dir,
      ''/layer0/etc/apk/world'' \<mapsto> File [''musl=1.2.5-r0''],
      ''/layer0/lib/apk/db/installed'' \<mapsto> File installed_musl]"

definition img_layered :: Image where
  "img_layered =
     \<lparr>Source = ''layered'', FSPath = ''/img'', Layers = [\<lparr>LayerFSPath = ''/layer0''\<rparr>]\<rparr>"

section \<open>Example environments\<close>

definition gate_free :: Gate where
  "gate_free = \<lparr>mutex_held = False, file_lock_held = False\<rparr>"

text \<open>
  A daemon that is reachable and refuses the image: the client is created, every
  TryLock succeeds, and \<open>daemon.Write\<close> returns an error.
\<close>

definition env_load_fails :: daemon_env where
  "env_load_fails =
     \<lparr>NewClientFromEnv_err = None,
      getLockfile_err = None,
      TryLock = (\<lambda>i. TryLock_ok),
      Unlock_err = None,
      loadImageToDaemon = Some (Inl (ExternalError ''daemon refused the image'')),
      CreateContainer = Inr ''c0'',
      StartContainer_err = None,
      WaitContainer = Inr 0,
      Logs = Inr ([], []),
      rpmEnvCheck = (\<lambda>root. Inl (ExternalError ''no rpm binary in host'')),
      exec_rpm = (\<lambda>fsPath dbPath. Inl (ExternalError ''no rpm binary in host''))\<rparr>"

section \<open>Properties of a trace of the gate\<close>

text \<open>
  \<open>is_TryLock\<close> picks the attempts out of a trace. \<open>sleeps_follow_temporary\<close> says
  that every attempt that failed with a temporary error is followed at once by a sleep
  of two seconds, and that nothing else sleeps. \<open>fatal_ends_attempts\<close> says that
  after an attempt that failed with another error the trace holds the release of the
  mutex and nothing more.
\<close>

fun is_TryLock :: "event \<Rightarrow> bool" where
  "is_TryLock (EvTryLock r) = True"
| "is_TryLock e = False"

fun sleeps_follow_temporary :: "event list \<Rightarrow> bool" where
  "sleeps_follow_temporary [] = True"
| "sleeps_follow_temporary (EvTryLock TryLock_temporary # rest) =
     (case rest of
        EvSleep n # rest' \<Rightarrow> n = 2 \<and> sleeps_follow_temporary rest'
      | _ \<Rightarrow> False)"
| "sleeps_follow_temporary (EvSleep n # rest) = False"
| "sleeps_follow_temporary (e # rest) = sleeps_follow_temporary rest"

fun fatal_ends_attempts :: "event list \<Rightarrow> bool" where
  "fatal_ends_attempts [] = True"
| "fatal_ends_attempts (EvTryLock TryLock_fatal # rest) = (rest = [EvMutexUnlock])"
| "fatal_ends_attempts (e # rest) = fatal_ends_attempts rest"


definition env_retry :: daemon_env where
  "env_retry =
     env_load_fails\<lparr>TryLock := (\<lambda>i. if i < 9 then TryLock_temporary else TryLock_ok)\<rparr>"


text \<open>A line as the query format of \<open>rpmCmd\<close> prints it, without its newline.\<close>

definition rpm_line :: "string \<Rightarrow> string \<Rightarrow> string \<Rightarrow> string" where
  "rpm_line name ver sz = name @ tab # ver @ tab # sz"

text \<open>
  Query outputs: two public keys, which rpm lists under one name, between other
  packages and before the empty last line; and a line whose size is not a number.
\<close>

definition rpm_two_keys :: "string list" where
  "rpm_two_keys =
     [rpm_line ''gpg-pubkey'' ''1-1'' ''10'',
      rpm_line ''bash'' ''5.2-3'' ''7000'',
      rpm_line ''gpg-pubkey'' ''2-2'' ''20'',
      '''']"

definition rpm_bad_size :: "string list" where
  "rpm_bad_size = [rpm_line ''bash'' ''5.2-3'' ''7000'', rpm_line ''zlib'' ''1.3-1'' ''4k'']"

section \<open>What the two apk files say\<close>





section \<open>Properties\<close>

lemma strings_Split_nonempty: "strings_Split c s \<noteq> []"
  by (induction s) (auto split: list.splits)

lemma strings_Split_no_sep: "c \<notin> set s \<Longrightarrow> strings_Split c s = [s]"
  by (induction s) auto

subsection \<open>Paths of the example images\<close>

lemma Join_img_world: "filepath_Join ''/img'' apkWorldFile = ''/img/etc/apk/world''"
  by (simp add: filepath_Join_def filepath_Clean_def path_elems_def apkWorldFile_def)


lemma ParseInt_634880: "strconv_ParseInt ''634880'' = Some 634880"
  by (simp add: strconv_ParseInt_def strip_sign_def is_digit_def digits_val_def digit_val_def)

subsection \<open>The world-file parser panics on a line without an equals sign\<close>

lemma parseApkInfo_Inl: "parseApkInfo text cur pk = Inl p \<Longrightarrow> p = IndexOutOfRange 1 1"
  using strings_Split_nonempty [of "CHR ''=''" "text"]
  by (auto simp: parseApkInfo_def Let_def split: list.splits)

lemma parseApkInfo_no_eq:
  "CHR ''='' \<notin> set text \<Longrightarrow> parseApkInfo text cur pk = Inl (IndexOutOfRange 1 1)"
  by (simp add: parseApkInfo_def strings_Split_no_sep)

lemma scan_world_panics:
  "\<exists>l\<in>set lines. CHR ''='' \<notin> set l \<Longrightarrow> scan_world lines cur pk = Inl (IndexOutOfRange 1 1)"
proof (induction lines arbitrary: cur pk)
  case Nil
  then show ?case by simp
next
  case (Cons l ls)
  show ?case
  proof (cases "parseApkInfo l cur pk")
    case (Inl p)
    then show ?thesis using parseApkInfo_Inl [OF Inl] by simp
  next
    case (Inr res)
    then have "CHR ''='' \<in> set l"
      using parseApkInfo_no_eq [of l cur pk] by auto
    with Cons.prems have "\<exists>l\<in>set ls. CHR ''='' \<notin> set l" by auto
    then show ?thesis using Inr Cons.IH by (cases res) simp
  qed
qed

text \<open>
  C9: a line of the world file without \<open>=\<close> (an empty line, a bare package name) makes
  \<open>parseApkInfo\<close> read index 1 of a one-element split, and \<open>readWorldFile\<close> panics on
  every readable world file that has such a line.
\<close>

theorem C9_world_parser_panics:
  "(CHR ''='' \<notin> set text \<longrightarrow> parseApkInfo text cur pk = Inl (IndexOutOfRange 1 1)) \<and>
   (os_Stat fs root = None \<and>
    fs (filepath_Join root apkWorldFile) = Some (File lines) \<and>
    (\<exists>l\<in>set lines. CHR ''='' \<notin> set l)
    \<longrightarrow> readWorldFile fs root = Panicked (IndexOutOfRange 1 1))"
  by (auto simp: parseApkInfo_no_eq readWorldFile_def os_Stat_def os_Open_def Let_def
      scan_world_panics)

theorem C9_world_parser_panics_witness:
  "parseApkInfo ''curl'' '''' Map.empty = Inl (IndexOutOfRange 1 1) \<and>
   readWorldFile fs_bare_name ''/img'' = Panicked (IndexOutOfRange 1 1)"
  using C9_world_parser_panics [of "''curl''" "''''" Map.empty fs_bare_name "''/img''"
      "[''musl=1.2.5-r0'', ''curl'']"]
  by (simp add: fs_bare_name_def os_Stat_def Join_img_world)

subsection \<open>A missing database or rpm binary is an empty map\<close>

text \<open>
  C4: when the image root exists and the apk file is absent, \<open>readWorldFile\<close> (either
  definition) returns the empty map and no error; when the root exists and neither
  \<open>bin/rpm\<close> nor \<open>usr/bin/rpm\<close> does, \<open>RPMAnalyzer.getPackages\<close> returns the empty
  map and no error, without touching the gate.
\<close>

theorem C4_absent_database_is_empty:
  "(os_Stat fs root = None \<and> os_Stat fs (filepath_Join root apkWorldFile) \<noteq> None
      \<longrightarrow> readWorldFile fs root = Returned Map.empty None) \<and>
   (os_Stat fs root = None \<and> os_Stat fs (filepath_Join root apkInstalledPackagesFile) \<noteq> None
      \<longrightarrow> readWorldFile_installed fs root = Returned Map.empty None) \<and>
   (os_Stat fs (FSPath img) = None \<and>
    os_Stat fs (filepath_Join (FSPath img) ''bin/rpm'') \<noteq> None \<and>
    os_Stat fs (filepath_Join (FSPath img) ''usr/bin/rpm'') \<noteq> None
      \<longrightarrow> RPMAnalyzer_getPackages env fs g img = (Returned Map.empty None, g, []))"
  by (auto simp: readWorldFile_def readWorldFile_installed_def RPMAnalyzer_getPackages_def Let_def)

lemmas Join_simps = filepath_Join_def filepath_Clean_def path_elems_def

theorem C4_absent_database_is_empty_witness:
  "readWorldFile fs_no_db ''/img'' = Returned Map.empty None \<and>
   readWorldFile_installed fs_no_db ''/img'' = Returned Map.empty None \<and>
   RPMAnalyzer_getPackages env_load_fails fs_no_db gate_free img_flat
     = (Returned Map.empty None, gate_free, [])"
  using C4_absent_database_is_empty [of fs_no_db "''/img''" img_flat env_load_fails gate_free]
  by (simp add: fs_no_db_def os_Stat_def img_flat_def Join_simps apkWorldFile_def
      apkInstalledPackagesFile_def)

subsection \<open>The installed-database parser skips what it cannot split\<close>

lemma strings_Split_append:
  "strings_Split c (a @ c # b) = strings_Split c a @ strings_Split c b"
  by (induction a) (auto split: list.splits simp: strings_Split_nonempty)

lemma strings_Split_length2: "c \<in> set s \<Longrightarrow> 2 \<le> length (strings_Split c s)"
proof -
  assume "c \<in> set s"
  then obtain a b where "s = a @ c # b" by (auto simp: in_set_conv_decomp)
  moreover have "1 \<le> length (strings_Split c a)" "1 \<le> length (strings_Split c b)"
    using strings_Split_nonempty [of c a] strings_Split_nonempty [of c b]
    by (simp_all add: Suc_le_eq)
  ultimately show ?thesis by (simp add: strings_Split_append)
qed

lemma parseApkInfo_installed_skip:
  "length (strings_Split CHR '':'' text) \<noteq> 2 \<Longrightarrow>
   parseApkInfo_installed text cur pk = (cur, pk)"
  by (auto simp: parseApkInfo_installed_def split: list.splits)

text \<open>
  C10: the parser of the installed database handles a line only when it splits on
  \<open>:\<close> into exactly two fields. A line whose value holds a colon (a version with an
  epoch, \<open>V:1:2.3-r0\<close>) is skipped: the map and the current package stay as they
  are. An \<open>I:\<close> line whose value ParseInt refuses stores the size -1; the function
  has no error to return.
\<close>

theorem C10_installed_parser_skips_and_defaults:
  "(length (strings_Split CHR '':'' text) \<noteq> 2
      \<longrightarrow> parseApkInfo_installed text cur pk = (cur, pk)) \<and>
   (CHR '':'' \<in> set val
      \<longrightarrow> parseApkInfo_installed (key @ CHR '':'' # val) cur pk = (cur, pk)) \<and>
   (CHR '':'' \<notin> set val \<and> strconv_ParseInt val = None
      \<longrightarrow> parseApkInfo_installed (''I:'' @ val) cur pk =
          (cur, pk(cur \<mapsto> (case pk cur of None \<Rightarrow> PackageInfo_zero | Some i \<Rightarrow> i)\<lparr>Size := - 1\<rparr>)))"
proof (intro conjI impI)
  assume "length (strings_Split CHR '':'' text) \<noteq> 2"
  then show "parseApkInfo_installed text cur pk = (cur, pk)"
    by (rule parseApkInfo_installed_skip)
next
  assume "CHR '':'' \<in> set val"
  then have "2 \<le> length (strings_Split CHR '':'' val)"
    by (rule strings_Split_length2)
  moreover have "1 \<le> length (strings_Split CHR '':'' key)"
    using strings_Split_nonempty [of "CHR '':''" key] by (simp add: Suc_le_eq)
  ultimately have "length (strings_Split CHR '':'' (key @ CHR '':'' # val)) \<noteq> 2"
    by (simp add: strings_Split_append)
  then show "parseApkInfo_installed (key @ CHR '':'' # val) cur pk = (cur, pk)"
    by (rule parseApkInfo_installed_skip)
next
  assume a: "CHR '':'' \<notin> set val \<and> strconv_ParseInt val = None"
  then have "strings_Split CHR '':'' (''I:'' @ val) = [''I'', val]"
    by (simp add: strings_Split_no_sep)
  with a show "parseApkInfo_installed (''I:'' @ val) cur pk =
      (cur, pk(cur \<mapsto> (case pk cur of None \<Rightarrow> PackageInfo_zero | Some i \<Rightarrow> i)\<lparr>Size := - 1\<rparr>))"
    by (simp add: parseApkInfo_installed_def)
qed

lemma ParseInt_4k: "strconv_ParseInt ''4k'' = None"
  by (simp add: strconv_ParseInt_def strip_sign_def is_digit_def)

theorem C10_installed_parser_skips_and_defaults_witness:
  "parseApkInfo_installed ''V:1:2.3-r0'' ''musl'' Map.empty = (''musl'', Map.empty) \<and>
   parseApkInfo_installed ''I:4k'' ''musl'' [''musl'' \<mapsto> \<lparr>Version = ''1.2.5-r0'', Size = 0\<rparr>]
     = (''musl'', [''musl'' \<mapsto> \<lparr>Version = ''1.2.5-r0'', Size = - 1\<rparr>])"
  using C10_installed_parser_skips_and_defaults [of "''V:1:2.3-r0''" "''musl''" Map.empty
      "''1:2.3-r0''" "''V''"]
    C10_installed_parser_skips_and_defaults [of "''I:4k''" "''musl''"
      "[''musl'' \<mapsto> \<lparr>Version = ''1.2.5-r0'', Size = 0\<rparr>]" "''4k''" "''I''"]
  by (simp add: ParseInt_4k)

subsection \<open>The apk world scenario\<close>

text \<open>
  C1: when the apk database of image A yields musl at 1.2.5-r0 and busybox at
  1.36.1-r29, and that of image B yields musl at 1.2.5-r1 and curl at 8.8.0-r0, the
  diff has exactly busybox in \<open>Image1Only\<close>, exactly curl in \<open>Image2Only\<close>, and
  exactly musl, with both infos, in \<open>Modified\<close>. The witness runs the world-file
  reader on the scenario's two world files.
\<close>

theorem C1_apk_world_diff:
  "ApkAnalyzer_getPackages fs image1 =
     Returned [''musl'' \<mapsto> \<lparr>Version = ''1.2.5-r0'', Size = s1\<rparr>,
               ''busybox'' \<mapsto> \<lparr>Version = ''1.36.1-r29'', Size = s2\<rparr>] None \<Longrightarrow>
   ApkAnalyzer_getPackages fs image2 =
     Returned [''musl'' \<mapsto> \<lparr>Version = ''1.2.5-r1'', Size = s3\<rparr>,
               ''curl'' \<mapsto> \<lparr>Version = ''8.8.0-r0'', Size = s4\<rparr>] None \<Longrightarrow>
   ApkAnalyzer_Diff fs image1 image2 =
     Returned
       \<lparr>Image1Only = [''busybox'' \<mapsto> \<lparr>Version = ''1.36.1-r29'', Size = s2\<rparr>],
        Image2Only = [''curl'' \<mapsto> \<lparr>Version = ''8.8.0-r0'', Size = s4\<rparr>],
        Modified = [''musl'' \<mapsto> (\<lparr>Version = ''1.2.5-r0'', Size = s1\<rparr>,
                                     \<lparr>Version = ''1.2.5-r1'', Size = s3\<rparr>)]\<rparr>
       None"
  by (auto simp: ApkAnalyzer_Diff_def singleVersionDiff_def PackageDiffEngine_def fun_eq_iff)

lemma getPackages_imgA:
  "ApkAnalyzer_getPackages fs_scenario imgA =
     Returned [''musl'' \<mapsto> \<lparr>Version = ''1.2.5-r0'', Size = 0\<rparr>,
               ''busybox'' \<mapsto> \<lparr>Version = ''1.36.1-r29'', Size = 0\<rparr>] None"
  by (simp add: ApkAnalyzer_getPackages_def readWorldFile_def imgA_def fs_scenario_def
      os_Stat_def os_Open_def Join_simps apkWorldFile_def parseApkInfo_def PackageInfo_zero_def)

lemma getPackages_imgB:
  "ApkAnalyzer_getPackages fs_scenario imgB =
     Returned [''musl'' \<mapsto> \<lparr>Version = ''1.2.5-r1'', Size = 0\<rparr>,
               ''curl'' \<mapsto> \<lparr>Version = ''8.8.0-r0'', Size = 0\<rparr>] None"
  by (simp add: ApkAnalyzer_getPackages_def readWorldFile_def imgB_def fs_scenario_def
      os_Stat_def os_Open_def Join_simps apkWorldFile_def parseApkInfo_def PackageInfo_zero_def)

theorem C1_apk_world_diff_witness:
  "ApkAnalyzer_Diff fs_scenario imgA imgB =
     Returned
       \<lparr>Image1Only = [''busybox'' \<mapsto> \<lparr>Version = ''1.36.1-r29'', Size = 0\<rparr>],
        Image2Only = [''curl'' \<mapsto> \<lparr>Version = ''8.8.0-r0'', Size = 0\<rparr>],
        Modified = [''musl'' \<mapsto> (\<lparr>Version = ''1.2.5-r0'', Size = 0\<rparr>,
                                     \<lparr>Version = ''1.2.5-r1'', Size = 0\<rparr>)]\<rparr>
       None"
  using C1_apk_world_diff [OF getPackages_imgA getPackages_imgB] .

subsection \<open>The apk layer analyzer reads the dpkg database\<close>

text \<open>
  C3: the claim is that the apk layer analyzer returns, per layer, the map parsed from
  the apk database under the layer's directory. Both definitions call
  \<open>readStatusFile\<close>, the dpkg reader, instead: on an image whose layer holds the apk
  files and no \<open>var/lib/dpkg/status\<close> they return one empty map, whatever the dpkg
  parser is, where the apk readers return musl for that layer.
\<close>

theorem C3_layers_read_dpkg_status:
  "ApkLayerAnalyzer_getPackages parseStatus fs_layered img_layered = Returned [Map.empty] None \<and>
   ApkLayerAnalyzer_getPackages_installed parseStatus fs_layered img_layered
     = Returned [Map.empty] None \<and>
   map (\<lambda>layer. readWorldFile fs_layered (LayerFSPath layer)) (Layers img_layered)
     = [Returned [''musl'' \<mapsto> \<lparr>Version = ''1.2.5-r0'', Size = 0\<rparr>] None] \<and>
   map (\<lambda>layer. readWorldFile_installed fs_layered (LayerFSPath layer)) (Layers img_layered)
     = [Returned [''musl'' \<mapsto> \<lparr>Version = ''1.2.5-r0'', Size = 634880\<rparr>] None]"
proof (intro conjI)
  show "ApkLayerAnalyzer_getPackages parseStatus fs_layered img_layered = Returned [Map.empty] None"
    by (simp add: ApkLayerAnalyzer_getPackages_def readStatusFile_def img_layered_def
        fs_layered_def os_Stat_def Join_simps apkWorldFile_def dpkgStatusFile_def)
  show "ApkLayerAnalyzer_getPackages_installed parseStatus fs_layered img_layered
     = Returned [Map.empty] None"
    by (simp add: ApkLayerAnalyzer_getPackages_installed_def readStatusFile_def img_layered_def
        fs_layered_def os_Stat_def Join_simps apkInstalledPackagesFile_def dpkgStatusFile_def)
  show "map (\<lambda>layer. readWorldFile fs_layered (LayerFSPath layer)) (Layers img_layered)
     = [Returned [''musl'' \<mapsto> \<lparr>Version = ''1.2.5-r0'', Size = 0\<rparr>] None]"
    by (simp add: readWorldFile_def img_layered_def fs_layered_def os_Stat_def os_Open_def
        Join_simps apkWorldFile_def parseApkInfo_def PackageInfo_zero_def)
  show "map (\<lambda>layer. readWorldFile_installed fs_layered (LayerFSPath layer)) (Layers img_layered)
     = [Returned [''musl'' \<mapsto> \<lparr>Version = ''1.2.5-r0'', Size = 634880\<rparr>] None]"
    by (simp add: readWorldFile_installed_def img_layered_def fs_layered_def os_Stat_def
        os_Open_def Join_simps apkInstalledPackagesFile_def installed_musl_def
        parseApkInfo_installed_def PackageInfo_zero_def ParseInt_634880)
qed

subsection \<open>Each apk definition reads one file\<close>







subsection \<open>What each apk reader returns\<close>




lemma split_key_line:
  "CHR '':'' \<notin> set k \<Longrightarrow> CHR '':'' \<notin> set x \<Longrightarrow> strings_Split CHR '':'' (k @ CHR '':'' # x) = [k, x]"
  by (simp add: strings_Split_append strings_Split_no_sep)





subsection \<open>The attempt loop of lock\<close>

declare lock_loop.simps [simp del]

lemma lock_loop_done:
  "\<not> i < 10 \<Longrightarrow>
   lock_loop env i err g =
     (if err then (Returned () (Some LockTooManyTries), g\<lparr>mutex_held := False\<rparr>, [EvMutexUnlock])
      else (Returned () None, g, []))"
  by (subst lock_loop.simps) simp

lemma lock_loop_ok:
  "i < 10 \<Longrightarrow> TryLock env i = TryLock_ok \<Longrightarrow>
   lock_loop env (Suc i) False (g\<lparr>file_lock_held := True\<rparr>) = (r, g', tr) \<Longrightarrow>
   lock_loop env i err g = (r, g', EvTryLock TryLock_ok # tr)"
  by (subst lock_loop.simps) simp

lemma lock_loop_temporary:
  "i < 10 \<Longrightarrow> TryLock env i = TryLock_temporary \<Longrightarrow>
   lock_loop env (Suc i) True (g\<lparr>file_lock_held := False\<rparr>) = (r, g', tr) \<Longrightarrow>
   lock_loop env i err g = (r, g', EvTryLock TryLock_temporary # EvSleep 2 # tr)"
  by (subst lock_loop.simps) simp

lemma lock_loop_fatal:
  "i < 10 \<Longrightarrow> TryLock env i = TryLock_fatal \<Longrightarrow>
   lock_loop env i err g =
     (Returned () (Some LockAcquireError), g\<lparr>mutex_held := False\<rparr>,
      [EvTryLock TryLock_fatal, EvMutexUnlock])"
  by (subst lock_loop.simps) simp

text \<open>One rule for every fact about the loop: the four ways an iteration goes.\<close>

lemma lock_loop_cases:
  assumes finished: "\<And>i err g. \<not> i < 10 \<Longrightarrow>
      P i err g
        (if err then (Returned () (Some LockTooManyTries), g\<lparr>mutex_held := False\<rparr>, [EvMutexUnlock])
         else (Returned () None, g, []))"
    and ok: "\<And>i err g r g' tr. i < 10 \<Longrightarrow> TryLock env i = TryLock_ok \<Longrightarrow>
      P (Suc i) False (g\<lparr>file_lock_held := True\<rparr>) (r, g', tr) \<Longrightarrow>
      P i err g (r, g', EvTryLock TryLock_ok # tr)"
    and temporary: "\<And>i err g r g' tr. i < 10 \<Longrightarrow> TryLock env i = TryLock_temporary \<Longrightarrow>
      P (Suc i) True (g\<lparr>file_lock_held := False\<rparr>) (r, g', tr) \<Longrightarrow>
      P i err g (r, g', EvTryLock TryLock_temporary # EvSleep 2 # tr)"
    and fatal: "\<And>i err g. i < 10 \<Longrightarrow> TryLock env i = TryLock_fatal \<Longrightarrow>
      P i err g
        (Returned () (Some LockAcquireError), g\<lparr>mutex_held := False\<rparr>,
         [EvTryLock TryLock_fatal, EvMutexUnlock])"
  shows "P i err g (lock_loop env i err g)"
proof (induction "10 - i" arbitrary: i err g)
  case 0
  then have "\<not> i < 10" by simp
  then show ?case using finished [of i err g] by (simp add: lock_loop_done)
next
  case (Suc n)
  then have less: "i < 10" and n: "n = 10 - Suc i" by simp_all
  show ?case
  proof (cases "TryLock env i")
    case TryLock_ok
    obtain r1 g1 tr1 where
      rec: "lock_loop env (Suc i) False (g\<lparr>file_lock_held := True\<rparr>) = (r1, g1, tr1)"
      using prod_cases3 by blast
    have "P (Suc i) False (g\<lparr>file_lock_held := True\<rparr>) (r1, g1, tr1)"
      using Suc.hyps(1) [OF n, of False "g\<lparr>file_lock_held := True\<rparr>"] by (simp add: rec)
    then show ?thesis
      using ok [OF less TryLock_ok] by (simp add: lock_loop_ok [OF less TryLock_ok rec])
  next
    case TryLock_temporary
    obtain r1 g1 tr1 where
      rec: "lock_loop env (Suc i) True (g\<lparr>file_lock_held := False\<rparr>) = (r1, g1, tr1)"
      using prod_cases3 by blast
    have "P (Suc i) True (g\<lparr>file_lock_held := False\<rparr>) (r1, g1, tr1)"
      using Suc.hyps(1) [OF n, of True "g\<lparr>file_lock_held := False\<rparr>"] by (simp add: rec)
    then show ?thesis
      using temporary [OF less TryLock_temporary]
      by (simp add: lock_loop_temporary [OF less TryLock_temporary rec])
  next
    case TryLock_fatal
    show ?thesis
      using fatal [OF less TryLock_fatal, of err g]
      by (simp add: lock_loop_fatal [OF less TryLock_fatal])
  qed
qed

lemma lock_loop_attempts:
  "lock_loop env i err g = (r, g', tr) \<Longrightarrow>
   length (filter is_TryLock tr) \<le> 10 - i \<and>
   (EvTryLock TryLock_fatal \<notin> set tr \<longrightarrow> length (filter is_TryLock tr) = 10 - i)"
proof -
  have "case lock_loop env i err g of (r, g', tr) \<Rightarrow>
      length (filter is_TryLock tr) \<le> 10 - i \<and>
      (EvTryLock TryLock_fatal \<notin> set tr \<longrightarrow> length (filter is_TryLock tr) = 10 - i)"
    by (rule lock_loop_cases [where env = env]) auto
  then show "lock_loop env i err g = (r, g', tr) \<Longrightarrow>
   length (filter is_TryLock tr) \<le> 10 - i \<and>
   (EvTryLock TryLock_fatal \<notin> set tr \<longrightarrow> length (filter is_TryLock tr) = 10 - i)"
    by simp
qed

lemma lock_loop_backoff:
  "lock_loop env i err g = (r, g', tr) \<Longrightarrow>
   sleeps_follow_temporary tr \<and> fatal_ends_attempts tr \<and>
   (EvTryLock TryLock_fatal \<in> set tr \<longrightarrow> r = Returned () (Some LockAcquireError))"
proof -
  have "case lock_loop env i err g of (r, g', tr) \<Rightarrow>
      sleeps_follow_temporary tr \<and> fatal_ends_attempts tr \<and>
      (EvTryLock TryLock_fatal \<in> set tr \<longrightarrow> r = Returned () (Some LockAcquireError))"
    by (rule lock_loop_cases [where env = env]) auto
  then show "lock_loop env i err g = (r, g', tr) \<Longrightarrow>
   sleeps_follow_temporary tr \<and> fatal_ends_attempts tr \<and>
   (EvTryLock TryLock_fatal \<in> set tr \<longrightarrow> r = Returned () (Some LockAcquireError))"
    by simp
qed

lemma all_from_split:
  fixes Q :: "nat \<Rightarrow> bool"
  assumes "i < n"
  shows "(\<forall>k. i \<le> k \<and> k < n \<longrightarrow> Q k) = (Q i \<and> (\<forall>k. Suc i \<le> k \<and> k < n \<longrightarrow> Q k))"
proof
  assume "\<forall>k. i \<le> k \<and> k < n \<longrightarrow> Q k"
  then show "Q i \<and> (\<forall>k. Suc i \<le> k \<and> k < n \<longrightarrow> Q k)"
    using assms by auto
next
  assume R: "Q i \<and> (\<forall>k. Suc i \<le> k \<and> k < n \<longrightarrow> Q k)"
  show "\<forall>k. i \<le> k \<and> k < n \<longrightarrow> Q k"
  proof (intro allI impI)
    fix k
    assume "i \<le> k \<and> k < n"
    then have "k = i \<or> (Suc i \<le> k \<and> k < n)" by auto
    then show "Q k" using R by auto
  qed
qed

lemma lock_loop_success_iff_last:
  "lock_loop env i err g = (r, g', tr) \<Longrightarrow> i < 10 \<Longrightarrow>
   (r = Returned () None) =
     ((\<forall>k. i \<le> k \<and> k < 10 \<longrightarrow> TryLock env k \<noteq> TryLock_fatal) \<and> TryLock env 9 = TryLock_ok)"
proof -
  define P where "P = (\<lambda>i err (g :: Gate) (res :: unit go_result \<times> Gate \<times> event list).
      (fst res = Returned () None) =
        ((\<forall>k. i \<le> k \<and> k < 10 \<longrightarrow> TryLock env k \<noteq> TryLock_fatal) \<and>
         (if i < 10 then TryLock env 9 = TryLock_ok else \<not> err)))"
  have step: "P i err g (r, g', ev)"
    if less: "i < 10" and nonfatal: "TryLock env i \<noteq> TryLock_fatal"
      and last: "i = 9 \<Longrightarrow> (e = False) = (TryLock env 9 = TryLock_ok)"
      and IH: "P (Suc i) e g1 (r, g', tr)"
    for i err e g g1 r g' tr ev
  proof -
    have A: "(\<forall>k. i \<le> k \<and> k < 10 \<longrightarrow> TryLock env k \<noteq> TryLock_fatal)
        = (\<forall>k. Suc i \<le> k \<and> k < 10 \<longrightarrow> TryLock env k \<noteq> TryLock_fatal)"
      using all_from_split [OF less, of "\<lambda>k. TryLock env k \<noteq> TryLock_fatal"] nonfatal by simp
    show ?thesis
    proof (cases "Suc i < 10")
      case True
      then show ?thesis using IH less by (simp add: P_def A)
    next
      case False
      then have i9: "i = 9" using less by simp
      have A9: "(\<forall>k. 9 \<le> k \<and> k < 10 \<longrightarrow> TryLock env k \<noteq> TryLock_fatal)
        = (\<forall>k. 10 \<le> k \<and> k < 10 \<longrightarrow> TryLock env k \<noteq> TryLock_fatal)"
        using A by (simp add: i9)
      show ?thesis using IH last [OF i9] by (simp add: P_def i9 A9)
    qed
  qed
  have "P i err g (lock_loop env i err g)"
  proof (rule lock_loop_cases [where P = P and env = env])
    show "\<And>i err g. \<not> i < 10 \<Longrightarrow>
      P i err g
        (if err then (Returned () (Some LockTooManyTries), g\<lparr>mutex_held := False\<rparr>, [EvMutexUnlock])
         else (Returned () None, g, []))"
      by (auto simp: P_def)
    show "\<And>i err g r g' tr. i < 10 \<Longrightarrow> TryLock env i = TryLock_ok \<Longrightarrow>
      P (Suc i) False (g\<lparr>file_lock_held := True\<rparr>) (r, g', tr) \<Longrightarrow>
      P i err g (r, g', EvTryLock TryLock_ok # tr)"
      by (rule step [where e = False]) simp_all
    show "\<And>i err g r g' tr. i < 10 \<Longrightarrow> TryLock env i = TryLock_temporary \<Longrightarrow>
      P (Suc i) True (g\<lparr>file_lock_held := False\<rparr>) (r, g', tr) \<Longrightarrow>
      P i err g (r, g', EvTryLock TryLock_temporary # EvSleep 2 # tr)"
      by (rule step [where e = True]) simp_all
    show "\<And>i err g. i < 10 \<Longrightarrow> TryLock env i = TryLock_fatal \<Longrightarrow>
      P i err g
        (Returned () (Some LockAcquireError), g\<lparr>mutex_held := False\<rparr>,
         [EvTryLock TryLock_fatal, EvMutexUnlock])"
      by (auto simp: P_def)
  qed
  then show "lock_loop env i err g = (r, g', tr) \<Longrightarrow> i < 10 \<Longrightarrow>
   (r = Returned () None) =
     ((\<forall>k. i \<le> k \<and> k < 10 \<longrightarrow> TryLock env k \<noteq> TryLock_fatal) \<and> TryLock env 9 = TryLock_ok)"
    by (simp add: P_def)
qed

lemma lock_loop_mutex:
  "lock_loop env i err g = (r, g', tr) \<Longrightarrow> mutex_held g \<Longrightarrow>
   r \<noteq> Blocked \<and> (\<forall>p. r \<noteq> Panicked p) \<and> EvMutexLock \<notin> set tr \<and>
   (r = Returned () None \<longrightarrow> mutex_held g' \<and> EvMutexUnlock \<notin> set tr) \<and>
   (\<forall>e. r = Returned () (Some e) \<longrightarrow> \<not> mutex_held g' \<and> tr \<noteq> [] \<and> last tr = EvMutexUnlock)"
proof -
  have "case lock_loop env i err g of (r, g', tr) \<Rightarrow>
      mutex_held g \<longrightarrow>
      r \<noteq> Blocked \<and> (\<forall>p. r \<noteq> Panicked p) \<and> EvMutexLock \<notin> set tr \<and>
      (r = Returned () None \<longrightarrow> mutex_held g' \<and> EvMutexUnlock \<notin> set tr) \<and>
      (\<forall>e. r = Returned () (Some e) \<longrightarrow> \<not> mutex_held g' \<and> tr \<noteq> [] \<and> last tr = EvMutexUnlock)"
    by (rule lock_loop_cases [where env = env]) auto
  then show "lock_loop env i err g = (r, g', tr) \<Longrightarrow> mutex_held g \<Longrightarrow>
   r \<noteq> Blocked \<and> (\<forall>p. r \<noteq> Panicked p) \<and> EvMutexLock \<notin> set tr \<and>
   (r = Returned () None \<longrightarrow> mutex_held g' \<and> EvMutexUnlock \<notin> set tr) \<and>
   (\<forall>e. r = Returned () (Some e) \<longrightarrow> \<not> mutex_held g' \<and> tr \<noteq> [] \<and> last tr = EvMutexUnlock)"
    by simp
qed

subsection \<open>The gate on concrete environments\<close>

lemma lock_env_load_fails:
  "lock env_load_fails gate_free =
     (Returned () None, \<lparr>mutex_held = True, file_lock_held = True\<rparr>,
      EvMutexLock # replicate 10 (EvTryLock TryLock_ok))"
  by (simp add: lock_def env_load_fails_def gate_free_def lock_loop.simps numeral_eq_Suc)


lemma lock_env_retry:
  "lock env_retry gate_free =
     (Returned () None, \<lparr>mutex_held = True, file_lock_held = True\<rparr>,
      EvMutexLock # concat (replicate 9 [EvTryLock TryLock_temporary, EvSleep 2])
        @ [EvTryLock TryLock_ok])"
  by (simp add: lock_def env_retry_def env_load_fails_def gate_free_def lock_loop.simps numeral_eq_Suc)


subsection \<open>The two-level discipline\<close>

lemma lock_loop_success_iff_held_any:
  "lock_loop env i err g = (r, g', tr) \<Longrightarrow> i < 10 \<or> err = (\<not> file_lock_held g) \<Longrightarrow>
   (r = Returned () None) = (EvTryLock TryLock_fatal \<notin> set tr \<and> file_lock_held g')"
proof -
  have "case lock_loop env i err g of (r, g', tr) \<Rightarrow>
      i < 10 \<or> err = (\<not> file_lock_held g) \<longrightarrow>
      (r = Returned () None) = (EvTryLock TryLock_fatal \<notin> set tr \<and> file_lock_held g')"
    by (rule lock_loop_cases [where env = env]) auto
  then show "lock_loop env i err g = (r, g', tr) \<Longrightarrow> i < 10 \<or> err = (\<not> file_lock_held g) \<Longrightarrow>
   (r = Returned () None) = (EvTryLock TryLock_fatal \<notin> set tr \<and> file_lock_held g')"
    by simp
qed

text \<open>What \<open>lock\<close> is, by the three ways it starts.\<close>

lemma lock_cases:
  assumes "lock env g = (r, g', tr)"
  obtains (blocked) "mutex_held g" "r = Blocked" "g' = g" "tr = []"
  | (init) "\<not> mutex_held g" "getLockfile_err env \<noteq> None" "r = Returned () (Some LockInitError)"
      "\<not> mutex_held g'" "tr = [EvMutexLock, EvMutexUnlock]"
  | (loop) tr1 where "\<not> mutex_held g" "getLockfile_err env = None"
      "lock_loop env 0 False (g\<lparr>mutex_held := True\<rparr>) = (r, g', tr1)" "tr = EvMutexLock # tr1"
  using assms by (auto simp: lock_def split: if_splits option.splits prod.splits)



subsection \<open>The bounded retry\<close>

text \<open>
  C7: \<open>lock\<close> makes at most ten attempts; every attempt that fails with a temporary
  error is followed by a sleep of two seconds and nothing else sleeps; an attempt that
  fails with another error is the last one and the call returns the error; and the
  call returns nil exactly when the loop ran its ten attempts without such an error
  and ends holding the lock file, that is, when the tenth attempt succeeded.
\<close>

theorem C7_bounded_retry:
  assumes l: "lock env g = (r, g', tr)"
  shows "length (filter is_TryLock tr) \<le> 10 \<and>
    sleeps_follow_temporary tr \<and>
    fatal_ends_attempts tr \<and>
    (EvTryLock TryLock_fatal \<in> set tr \<longrightarrow> r = Returned () (Some LockAcquireError)) \<and>
    ((r = Returned () None) =
       (length (filter is_TryLock tr) = 10 \<and> EvTryLock TryLock_fatal \<notin> set tr \<and>
        file_lock_held g')) \<and>
    ((r = Returned () None) =
       (\<not> mutex_held g \<and> getLockfile_err env = None \<and>
        (\<forall>k<10. TryLock env k \<noteq> TryLock_fatal) \<and> TryLock env 9 = TryLock_ok))"
  using l
proof (cases rule: lock_cases)
  case blocked
  then show ?thesis by simp
next
  case init
  then show ?thesis by auto
next
  case (loop tr1)
  note a = lock_loop_attempts [OF loop(3)]
  note b = lock_loop_backoff [OF loop(3)]
  have c: "(r = Returned () None) = (EvTryLock TryLock_fatal \<notin> set tr1 \<and> file_lock_held g')"
    using lock_loop_success_iff_held_any [OF loop(3)] by simp
  have d: "(r = Returned () None) =
      ((\<forall>k<10. TryLock env k \<noteq> TryLock_fatal) \<and> TryLock env 9 = TryLock_ok)"
    using lock_loop_success_iff_last [OF loop(3)] by simp
  have cnt: "length (filter is_TryLock tr) = length (filter is_TryLock tr1)"
    and sl: "sleeps_follow_temporary tr = sleeps_follow_temporary tr1"
    and fe: "fatal_ends_attempts tr = fatal_ends_attempts tr1"
    and fm: "(EvTryLock TryLock_fatal \<in> set tr) = (EvTryLock TryLock_fatal \<in> set tr1)"
    using loop(4) by simp_all
  show ?thesis
    unfolding cnt sl fe fm using a b c d loop(1,2) by auto
qed

theorem C7_bounded_retry_witness:
  "lock env_retry gate_free =
     (Returned () None, \<lparr>mutex_held = True, file_lock_held = True\<rparr>,
      EvMutexLock # concat (replicate 9 [EvTryLock TryLock_temporary, EvSleep 2])
        @ [EvTryLock TryLock_ok]) \<and>
   length (filter is_TryLock
     (EvMutexLock # concat (replicate 9 [EvTryLock TryLock_temporary, EvSleep 2])
        @ [EvTryLock TryLock_ok])) = 10 \<and>
   sleeps_follow_temporary
     (EvMutexLock # concat (replicate 9 [EvTryLock TryLock_temporary, EvSleep 2])
        @ [EvTryLock TryLock_ok]) \<and>
   TryLock env_retry 9 = TryLock_ok"
  using C7_bounded_retry [OF lock_env_retry] lock_env_retry
  by simp

subsection \<open>The gate across rpmDataFromContainer\<close>

lemma lock_success_holds_gate:
  assumes "lock env g = (Returned () None, g1, tr1)"
  shows "mutex_held g1 \<and> file_lock_held g1 \<and> EvMutexUnlock \<notin> set tr1 \<and>
    getLockfile_err env = None"
  using assms
proof (cases rule: lock_cases)
  case blocked
  then show ?thesis by simp
next
  case init
  then show ?thesis by simp
next
  case (loop tr2)
  from lock_loop_mutex [OF loop(3)] have "mutex_held g1 \<and> EvMutexUnlock \<notin> set tr2" by simp
  moreover from lock_loop_success_iff_held_any [OF loop(3)] have "file_lock_held g1" by simp
  ultimately show ?thesis using loop(2,4) by simp
qed

text \<open>
  Whatever the environment: once \<open>lock\<close> has succeeded and the load fails, the
  function returns with the mutex and the lock file held and no release in the trace.
\<close>

lemma rpmDataFromContainer_failed_load:
  assumes "NewClientFromEnv_err env = None"
    and "lock env g = (Returned () None, g1, tr1)"
    and "loadImageToDaemon env = Some (Inl e)"
  shows "rpmDataFromContainer env g =
      (Returned Map.empty (Some (LoadImageError e)), g1, tr1 @ [EvLoadImage]) \<and>
    mutex_held g1 \<and> file_lock_held g1 \<and> EvMutexUnlock \<notin> set (tr1 @ [EvLoadImage])"
  using lock_success_holds_gate [OF assms(2)] assms
  by (simp add: rpmDataFromContainer_def)

text \<open>
  On the path where the load and \<open>unlock\<close> succeed, both levels are released, the
  lock file first, before the container is created.
\<close>

lemma rpmDataFromContainer_loaded:
  assumes "NewClientFromEnv_err env = None"
    and "lock env g = (Returned () None, g1, tr1)"
    and "loadImageToDaemon env = Some (Inr imageName)"
    and "Unlock_err env = None"
    and "run_query_container env = (r, tr3)"
  shows "rpmDataFromContainer env g =
      (r, g1\<lparr>file_lock_held := False, mutex_held := False\<rparr>,
       tr1 @ EvLoadImage # EvFileUnlock # EvMutexUnlock # tr3)"
  using lock_success_holds_gate [OF assms(2)] assms
  by (simp add: rpmDataFromContainer_def unlock_def)

text \<open>
  C5: the claim is that the gate is released on every return path of
  \<open>rpmDataFromContainer\<close> after it was acquired, the failed load included. With a
  daemon that refuses the image the function returns the load error from before
  \<open>unlock()\<close>: the mutex and the lock file are still held at the return and the trace
  holds no release.
\<close>

theorem C5_gate_held_after_failed_load:
  "rpmDataFromContainer env_load_fails gate_free =
     (Returned Map.empty (Some (LoadImageError (ExternalError ''daemon refused the image''))),
      \<lparr>mutex_held = True, file_lock_held = True\<rparr>,
      EvMutexLock # replicate 10 (EvTryLock TryLock_ok) @ [EvLoadImage])"
proof -
  have client: "NewClientFromEnv_err env_load_fails = None"
    by (simp add: env_load_fails_def)
  have load: "loadImageToDaemon env_load_fails
      = Some (Inl (ExternalError ''daemon refused the image''))"
    by (simp add: env_load_fails_def)
  show ?thesis
    by (simp add: rpmDataFromContainer_def client load lock_env_load_fails)
qed

subsection \<open>parsePackageData\<close>

lemma split_rpm_line:
  "tab \<notin> set n \<Longrightarrow> tab \<notin> set v \<Longrightarrow> tab \<notin> set s \<Longrightarrow>
   strings_Split tab (rpm_line n v s) = [n, v, s]"
  by (simp add: rpm_line_def strings_Split_append strings_Split_no_sep)

lemma parsePackageData_loop_skip:
  "parsePackageData_loop (filter (\<lambda>l. length (strings_Split tab l) = 3) lines) pk
     = parsePackageData_loop lines pk"
  by (induction lines arbitrary: pk) (auto split: list.splits option.splits)

lemma parsePackageData_loop_error:
  "\<exists>l\<in>set lines. \<exists>n v s. strings_Split tab l = [n, v, s] \<and> strconv_ParseInt s = None \<Longrightarrow>
   \<exists>m s. parsePackageData_loop lines pk = Returned m (Some (ConvertSizeError s))
      \<and> strconv_ParseInt s = None"
proof (induction lines arbitrary: pk)
  case Nil
  then show ?case by simp
next
  case (Cons l ls)
  show ?case
  proof (cases "\<exists>n v s. strings_Split tab l = [n, v, s]")
    case False
    then have skip: "parsePackageData_loop (l # ls) pk = parsePackageData_loop ls pk"
      by (auto split: list.splits)
    from False Cons.prems
    have "\<exists>l\<in>set ls. \<exists>n v s. strings_Split tab l = [n, v, s] \<and> strconv_ParseInt s = None"
      by auto
    then show ?thesis using Cons.IH skip by simp
  next
    case True
    then obtain n v s where sp: "strings_Split tab l = [n, v, s]" by blast
    show ?thesis
    proof (cases "strconv_ParseInt s")
      case None
      then show ?thesis using sp by simp
    next
      case (Some k)
      with sp Cons.prems
      have "\<exists>l\<in>set ls. \<exists>n v s. strings_Split tab l = [n, v, s] \<and> strconv_ParseInt s = None"
        by auto
      then show ?thesis using Cons.IH sp Some by simp
    qed
  qed
qed

lemma parsePackageData_loop_ok:
  assumes "\<forall>l\<in>set lines. \<forall>n v s. strings_Split tab l = [n, v, s] \<longrightarrow> strconv_ParseInt s \<noteq> None"
  shows "\<exists>m. parsePackageData_loop lines pk = Returned m None \<and>
     (\<forall>n. (\<forall>l\<in>set lines. \<forall>v s. strings_Split tab l \<noteq> [n, v, s]) \<longrightarrow> m n = pk n) \<and>
     (\<forall>n. (\<exists>l\<in>set lines. \<exists>v s. strings_Split tab l = [n, v, s]) \<longrightarrow> m n \<noteq> None) \<and>
     (\<forall>pre l post n v s k.
        lines = pre @ l # post \<and> strings_Split tab l = [n, v, s] \<and> strconv_ParseInt s = Some k \<and>
        (\<forall>l'\<in>set post. \<forall>v' s'. strings_Split tab l' \<noteq> [n, v', s'])
        \<longrightarrow> m n = Some \<lparr>Version = v, Size = k\<rparr>)"
  using assms
proof (induction lines arbitrary: pk)
  case Nil
  then show ?case by simp
next
  case (Cons l0 ls)
  have prems': "\<forall>l\<in>set ls. \<forall>n v s. strings_Split tab l = [n, v, s] \<longrightarrow> strconv_ParseInt s \<noteq> None"
    using Cons.prems by simp
  show ?case
  proof (cases "\<exists>n v s. strings_Split tab l0 = [n, v, s]")
    case False
    then have skip: "parsePackageData_loop (l0 # ls) pk = parsePackageData_loop ls pk"
      by (auto split: list.splits)
    from Cons.IH [OF prems', of pk] obtain m where
      m: "parsePackageData_loop ls pk = Returned m None"
      and keep: "\<forall>n. (\<forall>l\<in>set ls. \<forall>v s. strings_Split tab l \<noteq> [n, v, s]) \<longrightarrow> m n = pk n"
      and dom: "\<forall>n. (\<exists>l\<in>set ls. \<exists>v s. strings_Split tab l = [n, v, s]) \<longrightarrow> m n \<noteq> None"
      and last: "\<forall>pre l post n v s k.
        ls = pre @ l # post \<and> strings_Split tab l = [n, v, s] \<and> strconv_ParseInt s = Some k \<and>
        (\<forall>l'\<in>set post. \<forall>v' s'. strings_Split tab l' \<noteq> [n, v', s'])
        \<longrightarrow> m n = Some \<lparr>Version = v, Size = k\<rparr>"
      by blast
    have "\<forall>pre l post n v s k.
        l0 # ls = pre @ l # post \<and> strings_Split tab l = [n, v, s] \<and> strconv_ParseInt s = Some k \<and>
        (\<forall>l'\<in>set post. \<forall>v' s'. strings_Split tab l' \<noteq> [n, v', s'])
        \<longrightarrow> m n = Some \<lparr>Version = v, Size = k\<rparr>"
    proof (intro allI impI)
      fix pre l post n v s k
      assume a: "l0 # ls = pre @ l # post \<and> strings_Split tab l = [n, v, s] \<and>
        strconv_ParseInt s = Some k \<and> (\<forall>l'\<in>set post. \<forall>v' s'. strings_Split tab l' \<noteq> [n, v', s'])"
      then have "pre \<noteq> []" using False by (cases pre) auto
      then obtain pre' where "pre = l0 # pre'" "ls = pre' @ l # post"
        using a by (cases pre) auto
      then show "m n = Some \<lparr>Version = v, Size = k\<rparr>" using last a by blast
    qed
    then show ?thesis using m keep dom False skip by auto
  next
    case True
    then obtain n0 v0 s0 where sp: "strings_Split tab l0 = [n0, v0, s0]" by blast
    then obtain k0 where k0: "strconv_ParseInt s0 = Some k0"
      using Cons.prems by auto
    let ?pk = "pk(n0 \<mapsto> \<lparr>Version = v0, Size = k0\<rparr>)"
    have step: "parsePackageData_loop (l0 # ls) pk = parsePackageData_loop ls ?pk"
      using sp k0 by simp
    from Cons.IH [OF prems', of ?pk] obtain m where
      m: "parsePackageData_loop ls ?pk = Returned m None"
      and keep: "\<forall>n. (\<forall>l\<in>set ls. \<forall>v s. strings_Split tab l \<noteq> [n, v, s]) \<longrightarrow> m n = ?pk n"
      and dom: "\<forall>n. (\<exists>l\<in>set ls. \<exists>v s. strings_Split tab l = [n, v, s]) \<longrightarrow> m n \<noteq> None"
      and last: "\<forall>pre l post n v s k.
        ls = pre @ l # post \<and> strings_Split tab l = [n, v, s] \<and> strconv_ParseInt s = Some k \<and>
        (\<forall>l'\<in>set post. \<forall>v' s'. strings_Split tab l' \<noteq> [n, v', s'])
        \<longrightarrow> m n = Some \<lparr>Version = v, Size = k\<rparr>"
      by blast
    have keep': "\<forall>n. (\<forall>l\<in>set (l0 # ls). \<forall>v s. strings_Split tab l \<noteq> [n, v, s]) \<longrightarrow> m n = pk n"
      using keep sp by auto
    have dom': "\<forall>n. (\<exists>l\<in>set (l0 # ls). \<exists>v s. strings_Split tab l = [n, v, s]) \<longrightarrow> m n \<noteq> None"
    proof (intro allI impI)
      fix n
      assume ex: "\<exists>l\<in>set (l0 # ls). \<exists>v s. strings_Split tab l = [n, v, s]"
      show "m n \<noteq> None"
      proof (cases "\<exists>l\<in>set ls. \<exists>v s. strings_Split tab l = [n, v, s]")
        case True
        then show ?thesis using dom by blast
      next
        case False
        with ex sp have "n = n0" by auto
        moreover from False keep have "m n = ?pk n" by blast
        ultimately show ?thesis by simp
      qed
    qed
    have last': "\<forall>pre l post n v s k.
        l0 # ls = pre @ l # post \<and> strings_Split tab l = [n, v, s] \<and> strconv_ParseInt s = Some k \<and>
        (\<forall>l'\<in>set post. \<forall>v' s'. strings_Split tab l' \<noteq> [n, v', s'])
        \<longrightarrow> m n = Some \<lparr>Version = v, Size = k\<rparr>"
    proof (intro allI impI)
      fix pre l post n v s k
      assume a: "l0 # ls = pre @ l # post \<and> strings_Split tab l = [n, v, s] \<and>
        strconv_ParseInt s = Some k \<and> (\<forall>l'\<in>set post. \<forall>v' s'. strings_Split tab l' \<noteq> [n, v', s'])"
      show "m n = Some \<lparr>Version = v, Size = k\<rparr>"
      proof (cases pre)
        case Nil
        with a have "l = l0" "post = ls" by auto
        with a sp k0 have "n = n0" "v = v0" "k = k0" by auto
        moreover have "m n0 = ?pk n0" using keep a \<open>post = ls\<close> \<open>n = n0\<close> by blast
        ultimately show ?thesis by simp
      next
        case (Cons p pre')
        with a have "ls = pre' @ l # post" by auto
        then show ?thesis using last a by blast
      qed
    qed
    show ?thesis using m step keep' dom' last' by simp
  qed
qed

lemma ParseInt_examples:
  "strconv_ParseInt ''10'' = Some 10"
  "strconv_ParseInt ''20'' = Some 20"
  "strconv_ParseInt ''7000'' = Some 7000"
  "strconv_ParseInt ''4k'' = None"
  by (simp_all add: strconv_ParseInt_def strip_sign_def is_digit_def digits_val_def digit_val_def)

lemma split_examples:
  "strings_Split tab (rpm_line ''gpg-pubkey'' ''1-1'' ''10'') = [''gpg-pubkey'', ''1-1'', ''10'']"
  "strings_Split tab (rpm_line ''gpg-pubkey'' ''2-2'' ''20'') = [''gpg-pubkey'', ''2-2'', ''20'']"
  "strings_Split tab (rpm_line ''bash'' ''5.2-3'' ''7000'') = [''bash'', ''5.2-3'', ''7000'']"
  "strings_Split tab (rpm_line ''zlib'' ''1.3-1'' ''4k'') = [''zlib'', ''1.3-1'', ''4k'']"
  "strings_Split tab [] = [[]]"
  by (simp_all add: rpm_line_def tab_def)

text \<open>
  C8, as stated, fails where two lines carry one name: the first key's line splits
  into three fields and the map returned has, for its name, the second key's version
  and size; two lines of three fields share one entry.
\<close>

theorem C8_entry_per_line_counterexample:
  "parsePackageData
     [rpm_line ''gpg-pubkey'' ''1-1'' ''10'', rpm_line ''gpg-pubkey'' ''2-2'' ''20'']
     = Returned [''gpg-pubkey'' \<mapsto> \<lparr>Version = ''2-2'', Size = 20\<rparr>] None \<and>
   strings_Split tab (rpm_line ''gpg-pubkey'' ''1-1'' ''10'') = [''gpg-pubkey'', ''1-1'', ''10''] \<and>
   strconv_ParseInt ''10'' = Some 10 \<and>
   [''gpg-pubkey'' \<mapsto> \<lparr>Version = ''2-2'', Size = 20\<rparr>] ''gpg-pubkey''
     \<noteq> Some \<lparr>Version = ''1-1'', Size = 10\<rparr>"
  by (simp add: parsePackageData_def split_examples ParseInt_examples)

text \<open>
  C8, amended: when every line of three fields has a size that ParseInt accepts, the
  function returns no error and a map whose keys are the first fields of the lines of
  three fields, each key with the version and the size of the last such line that
  carries it. When some line of three fields has a size that ParseInt refuses, the
  function returns an error naming a refused size. Lines that do not split into three
  fields change nothing.
\<close>

theorem C8_parsePackageData_last_line_wins:
  "((\<forall>l\<in>set lines. \<forall>n v s. strings_Split tab l = [n, v, s] \<longrightarrow> strconv_ParseInt s \<noteq> None) \<longrightarrow>
      (\<exists>m. parsePackageData lines = Returned m None \<and>
         dom m = {n. \<exists>l\<in>set lines. \<exists>v s. strings_Split tab l = [n, v, s]} \<and>
         (\<forall>pre l post n v s k.
            lines = pre @ l # post \<and> strings_Split tab l = [n, v, s] \<and>
            strconv_ParseInt s = Some k \<and>
            (\<forall>l'\<in>set post. \<forall>v' s'. strings_Split tab l' \<noteq> [n, v', s'])
            \<longrightarrow> m n = Some \<lparr>Version = v, Size = k\<rparr>))) \<and>
   ((\<exists>l\<in>set lines. \<exists>n v s. strings_Split tab l = [n, v, s] \<and> strconv_ParseInt s = None) \<longrightarrow>
      (\<exists>m s. parsePackageData lines = Returned m (Some (ConvertSizeError s)) \<and>
         strconv_ParseInt s = None)) \<and>
   parsePackageData (filter (\<lambda>l. length (strings_Split tab l) = 3) lines) = parsePackageData lines"
proof (intro conjI impI)
  assume good: "\<forall>l\<in>set lines. \<forall>n v s. strings_Split tab l = [n, v, s] \<longrightarrow> strconv_ParseInt s \<noteq> None"
  from parsePackageData_loop_ok [OF good, of Map.empty] obtain m where
    m: "parsePackageData_loop lines Map.empty = Returned m None"
    and keep0: "\<forall>n. (\<forall>l\<in>set lines. \<forall>v s. strings_Split tab l \<noteq> [n, v, s])
          \<longrightarrow> m n = (Map.empty :: PackageMap) n"
    and dom: "\<forall>n. (\<exists>l\<in>set lines. \<exists>v s. strings_Split tab l = [n, v, s]) \<longrightarrow> m n \<noteq> None"
    and last: "\<forall>pre l post n v s k.
        lines = pre @ l # post \<and> strings_Split tab l = [n, v, s] \<and> strconv_ParseInt s = Some k \<and>
        (\<forall>l'\<in>set post. \<forall>v' s'. strings_Split tab l' \<noteq> [n, v', s'])
        \<longrightarrow> m n = Some \<lparr>Version = v, Size = k\<rparr>"
    by blast
  have keep: "\<forall>n. (\<forall>l\<in>set lines. \<forall>v s. strings_Split tab l \<noteq> [n, v, s]) \<longrightarrow> m n = None"
    using keep0 by simp
  have member: "(n \<in> dom m) = (\<exists>l\<in>set lines. \<exists>v s. strings_Split tab l = [n, v, s])" for n
  proof (cases "\<exists>l\<in>set lines. \<exists>v s. strings_Split tab l = [n, v, s]")
    case True
    from mp [OF spec [OF dom] True] have "n \<in> dom m" by (simp add: dom_def)
    with True show ?thesis by simp
  next
    case False
    then have "\<forall>l\<in>set lines. \<forall>v s. strings_Split tab l \<noteq> [n, v, s]" by simp
    from mp [OF spec [OF keep] this] have "n \<notin> dom m" by (simp add: dom_def)
    with False show ?thesis by simp
  qed
  have domeq: "dom m = {n. \<exists>l\<in>set lines. \<exists>v s. strings_Split tab l = [n, v, s]}"
    unfolding set_eq_iff mem_Collect_eq by (intro allI) (rule member)
  have res: "parsePackageData lines = Returned m None"
    using m by (simp add: parsePackageData_def)
  show "\<exists>m. parsePackageData lines = Returned m None \<and>
         dom m = {n. \<exists>l\<in>set lines. \<exists>v s. strings_Split tab l = [n, v, s]} \<and>
         (\<forall>pre l post n v s k.
            lines = pre @ l # post \<and> strings_Split tab l = [n, v, s] \<and>
            strconv_ParseInt s = Some k \<and>
            (\<forall>l'\<in>set post. \<forall>v' s'. strings_Split tab l' \<noteq> [n, v', s'])
            \<longrightarrow> m n = Some \<lparr>Version = v, Size = k\<rparr>)"
  proof (rule exI [of _ m], intro conjI)
    show "parsePackageData lines = Returned m None" by (fact res)
    show "dom m = {n. \<exists>l\<in>set lines. \<exists>v s. strings_Split tab l = [n, v, s]}" by (fact domeq)
    show "\<forall>pre l post n v s k.
            lines = pre @ l # post \<and> strings_Split tab l = [n, v, s] \<and>
            strconv_ParseInt s = Some k \<and>
            (\<forall>l'\<in>set post. \<forall>v' s'. strings_Split tab l' \<noteq> [n, v', s'])
            \<longrightarrow> m n = Some \<lparr>Version = v, Size = k\<rparr>" by (fact last)
  qed
next
  assume "\<exists>l\<in>set lines. \<exists>n v s. strings_Split tab l = [n, v, s] \<and> strconv_ParseInt s = None"
  then show "\<exists>m s. parsePackageData lines = Returned m (Some (ConvertSizeError s)) \<and>
         strconv_ParseInt s = None"
    unfolding parsePackageData_def by (rule parsePackageData_loop_error)
next
  show "parsePackageData (filter (\<lambda>l. length (strings_Split tab l) = 3) lines)
      = parsePackageData lines"
    unfolding parsePackageData_def by (rule parsePackageData_loop_skip)
qed

theorem C8_parsePackageData_last_line_wins_witness:
  "(\<exists>m. parsePackageData rpm_two_keys = Returned m None \<and>
      m ''gpg-pubkey'' = Some \<lparr>Version = ''2-2'', Size = 20\<rparr> \<and>
      m ''bash'' = Some \<lparr>Version = ''5.2-3'', Size = 7000\<rparr>) \<and>
   (\<exists>m s. parsePackageData rpm_bad_size = Returned m (Some (ConvertSizeError s)))"
proof
  have good: "\<forall>l\<in>set rpm_two_keys. \<forall>n v s.
      strings_Split tab l = [n, v, s] \<longrightarrow> strconv_ParseInt s \<noteq> None"
    by (auto simp: rpm_two_keys_def split_examples ParseInt_examples)
  from mp [OF conjunct1 [OF C8_parsePackageData_last_line_wins [of rpm_two_keys]] good]
  obtain m where
    m: "parsePackageData rpm_two_keys = Returned m None"
    and last: "\<forall>pre l post n v s k.
        rpm_two_keys = pre @ l # post \<and> strings_Split tab l = [n, v, s] \<and>
        strconv_ParseInt s = Some k \<and>
        (\<forall>l'\<in>set post. \<forall>v' s'. strings_Split tab l' \<noteq> [n, v', s'])
        \<longrightarrow> m n = Some \<lparr>Version = v, Size = k\<rparr>"
    by (elim exE conjE)
  have key: "m ''gpg-pubkey'' = Some \<lparr>Version = ''2-2'', Size = 20\<rparr>"
    using last [rule_format, of
        "[rpm_line ''gpg-pubkey'' ''1-1'' ''10'', rpm_line ''bash'' ''5.2-3'' ''7000'']"
        "rpm_line ''gpg-pubkey'' ''2-2'' ''20''" "['''']" "''gpg-pubkey''" "''2-2''" "''20''" 20]
    by (simp add: rpm_two_keys_def split_examples ParseInt_examples)
  have bash: "m ''bash'' = Some \<lparr>Version = ''5.2-3'', Size = 7000\<rparr>"
    using last [rule_format, of
        "[rpm_line ''gpg-pubkey'' ''1-1'' ''10'']" "rpm_line ''bash'' ''5.2-3'' ''7000''"
        "[rpm_line ''gpg-pubkey'' ''2-2'' ''20'', '''']" "''bash''" "''5.2-3''" "''7000''" 7000]
    by (simp add: rpm_two_keys_def split_examples ParseInt_examples)
  from m key bash show "\<exists>m. parsePackageData rpm_two_keys = Returned m None \<and>
      m ''gpg-pubkey'' = Some \<lparr>Version = ''2-2'', Size = 20\<rparr> \<and>
      m ''bash'' = Some \<lparr>Version = ''5.2-3'', Size = 7000\<rparr>"
    by (intro exI [of _ m] conjI)
next
  have bad: "\<exists>l\<in>set rpm_bad_size. \<exists>n v s.
      strings_Split tab l = [n, v, s] \<and> strconv_ParseInt s = None"
    by (simp add: rpm_bad_size_def split_examples ParseInt_examples)
  from mp [OF conjunct1 [OF conjunct2 [OF C8_parsePackageData_last_line_wins [of rpm_bad_size]]] bad]
  obtain m s where "parsePackageData rpm_bad_size = Returned m (Some (ConvertSizeError s))"
    by (elim exE conjE)
  then show "\<exists>m s. parsePackageData rpm_bad_size = Returned m (Some (ConvertSizeError s))"
    by (intro exI)
qed

end
